theory Spec2Isabelle
  imports Main "HOL-Library.AList" "HOL-Library.Sublist"
begin

section \<open>JSON values and the Python operations the downloader applies to them\<close>

text \<open>
  A response body, a study and the content of the cache are JSON values as
  \<^verbatim>\<open>json.load\<close> and \<^verbatim>\<open>Response.json()\<close> build them: \<^verbatim>\<open>None\<close>, booleans, integers,
  strings, lists and dictionaries with string keys. A dictionary is an association list
  in insertion order whose keys are distinct (a parsed object keeps one value per key).
  JSON numbers with a fraction are left out: no claim reads one.
\<close>

datatype json =
    JNull
  | JBool bool
  | JNum int
  | JStr string
  | JArr "json list"
  | JObj "(string \<times> json) list"

text \<open>
  The exceptions the code can meet. \<open>KeyError k\<close> is a dictionary lookup of the absent
  key \<open>k\<close>; \<open>TypeError\<close> is indexing or iterating a value that does not allow it;
  \<open>ConnectionError\<close>, \<open>Timeout\<close> and \<open>JSONDecodeError\<close> are what
  \<^verbatim>\<open>requests.get(...).json()\<close> raises; \<open>BadGzipFile\<close> and \<open>JSONDecodeError\<close> are what reading
  a damaged cache raises; \<open>ImportError name\<close> is a failed \<^verbatim>\<open>from module import name\<close>;
  \<open>OverflowError\<close> is an integer too large for a float.
\<close>

datatype error =
    KeyError string
  | TypeError
  | AttributeError
  | ConnectionError
  | Timeout
  | JSONDecodeError
  | BadGzipFile
  | ImportError string
  | NotImplementedError
  | OverflowError

text \<open>\<^verbatim>\<open>res[key]\<close>: only a dictionary can be indexed by a string, and the key must be there.\<close>

fun py_getitem :: "json \<Rightarrow> string \<Rightarrow> error + json" where
  "py_getitem (JObj kvs) k = (case map_of kvs k of None \<Rightarrow> Inl (KeyError k) | Some v \<Rightarrow> Inr v)"
| "py_getitem _ k = Inl TypeError"

text \<open>\<^verbatim>\<open>res.get(key)\<close>: \<^verbatim>\<open>None\<close> for an absent key; only a dictionary has the method.\<close>

fun py_get :: "json \<Rightarrow> string \<Rightarrow> error + json" where
  "py_get (JObj kvs) k = (case map_of kvs k of None \<Rightarrow> Inr JNull | Some v \<Rightarrow> Inr v)"
| "py_get _ k = Inl AttributeError"

text \<open>The truth value Python gives a JSON value, as the \<^verbatim>\<open>while\<close> condition tests it.\<close>

fun truthy :: "json \<Rightarrow> bool" where
  "truthy JNull = False"
| "truthy (JBool b) = b"
| "truthy (JNum n) = (n \<noteq> 0)"
| "truthy (JStr s) = (s \<noteq> [])"
| "truthy (JArr xs) = (xs \<noteq> [])"
| "truthy (JObj kvs) = (kvs \<noteq> [])"

text \<open>
  What \<^verbatim>\<open>yield from v\<close> yields: the elements of a list, the keys of a dictionary, the
  characters of a string; any other value is not iterable.
\<close>

fun py_iter :: "json \<Rightarrow> error + json list" where
  "py_iter (JArr xs) = Inr xs"
| "py_iter (JObj kvs) = Inr (map (\<lambda>kv. JStr (fst kv)) kvs)"
| "py_iter (JStr s) = Inr (map (\<lambda>c. JStr [c]) s)"
| "py_iter _ = Inl TypeError"

text \<open>\<^verbatim>\<open>sep.join(xs)\<close>.\<close>

fun join :: "string \<Rightarrow> string list \<Rightarrow> string" where
  "join sep [] = []"
| "join sep [x] = x"
| "join sep (x # y # ys) = x @ sep @ join sep (y # ys)"

section \<open>Module constants of \<^verbatim>\<open>api.py\<close>\<close>

definition DEFAULT_FIELDS :: "string list" where
  "DEFAULT_FIELDS = [''NCTId'', ''BriefTitle'']"

definition MAXIMUM_PAGE_SIZE :: int where
  "MAXIMUM_PAGE_SIZE = 1000"

definition N_SAMPLE_ROWS :: nat where
  "N_SAMPLE_ROWS = 5"

text \<open>The two files of the module: \<^verbatim>\<open>results.json.gz\<close> and \<^verbatim>\<open>results_sample.json\<close>.\<close>

datatype artifact = PATH | PATH_SAMPLE

section \<open>The provider and the paginated fetcher\<close>

text \<open>
  The query parameters of a request are a Python dictionary; \<open>AList.update\<close> is the
  dictionary assignment (replace the value of a present key in place, append a new key).
  One call \<^verbatim>\<open>requests.get(STUDIES_ENDPOINT_URL, params=ps, timeout=5)\<close> is a step of the
  provider: from its state and the parameters to the exception raised or the HTTP
  response, and its next state. Of an HTTP response the model keeps the status code and
  what \<^verbatim>\<open>.json()\<close> gives on it, the decoded body or the exception for a body that is not
  JSON. The endpoint and the timeout are the same in every call and are not part of the
  model.
\<close>

type_synonym params = "(string \<times> json) list"

type_synonym response = "error + json"

datatype http_response = Response (status_code: nat) (body_json: response)

type_synonym 's provider = "'s \<Rightarrow> params \<Rightarrow> (error + http_response) \<times> 's"

text \<open>
  \<^verbatim>\<open>requests.get(...).json()\<close>, as lines 149 to 151 and 170 to 174 have it: the status code
  is not looked at.
\<close>

definition get_json :: "'s provider \<Rightarrow> 's \<Rightarrow> params \<Rightarrow> response \<times> 's" where
  "get_json get s ps =
    (let (reply, s') = get s ps
     in (case reply of Inl e \<Rightarrow> Inl e | Inr resp \<Rightarrow> body_json resp, s'))"

text \<open>
  What a consumer of the generator observes, in order: a request sent together with what
  \<^verbatim>\<open>requests.get(...).json()\<close> gave for it, and a study yielded.
\<close>

datatype event = Request params response | Yield json

text \<open>A generator ends by running out (\<^verbatim>\<open>StopIteration\<close>) or by raising.\<close>

datatype outcome = Exhausted | Raised error

fun requests_of :: "event list \<Rightarrow> params list" where
  "requests_of [] = []"
| "requests_of (Request ps r # es) = ps # requests_of es"
| "requests_of (Yield y # es) = requests_of es"

fun exchanges_of :: "event list \<Rightarrow> (params \<times> response) list" where
  "exchanges_of [] = []"
| "exchanges_of (Request ps r # es) = (ps, r) # exchanges_of es"
| "exchanges_of (Yield y # es) = exchanges_of es"

fun yields_of :: "event list \<Rightarrow> json list" where
  "yields_of [] = []"
| "yields_of (Request ps r # es) = yields_of es"
| "yields_of (Yield y # es) = y # yields_of es"

text \<open>
  The progress bar of lines 156 to 164 and 177 is \<^verbatim>\<open>tqdm\<close>, a library the repository does not
  hold; it is a parameter. \<open>tqdm_new\<close> is the call
  \<^verbatim>\<open>tqdm(desc=..., total=total, unit="trial", unit_scale=True)\<close> followed by entering the
  \<^verbatim>\<open>with\<close> block: the bar, or the exception raised. \<open>tqdm_update\<close> is \<^verbatim>\<open>pbar.update(k)\<close>: the
  exception raised, if any, and the bar after the call. \<open>tqdm_exit\<close> is leaving the
  \<^verbatim>\<open>with\<close> block: from the way its body ended to the way the statement ends, so that a
  bar may close quietly, raise while closing, or keep an exception of the body from
  going further (the generator then runs out).
\<close>

datatype 'p progress =
  Progress
    (tqdm_new: "json \<Rightarrow> error + 'p")
    (tqdm_update: "'p \<Rightarrow> int \<Rightarrow> error option \<times> 'p")
    (tqdm_exit: "'p \<Rightarrow> outcome \<Rightarrow> outcome")

text \<open>Lines 135 to 139: the page size after the default and the clamp.\<close>

definition clamp_page_size :: "int option \<Rightarrow> int" where
  "clamp_page_size page_size =
    (let page_size1 = (case page_size of None \<Rightarrow> MAXIMUM_PAGE_SIZE | Some p \<Rightarrow> p)
     in if page_size1 > MAXIMUM_PAGE_SIZE then MAXIMUM_PAGE_SIZE else page_size1)"

text \<open>
  Lines 135 to 145: the parameters shared by every request. A page size above the
  maximum is replaced by the maximum; a field selection other than \<^verbatim>\<open>None\<close> adds the key
  \<^verbatim>\<open>fields\<close>, whose value the code computes from \<^verbatim>\<open>DEFAULT_FIELDS\<close>.
\<close>

definition base_parameters :: "int option \<Rightarrow> string list option \<Rightarrow> params" where
  "base_parameters page_size fields =
    (let page_size1 = (case page_size of None \<Rightarrow> MAXIMUM_PAGE_SIZE | Some p \<Rightarrow> p);
         page_size2 = (if page_size1 > MAXIMUM_PAGE_SIZE then MAXIMUM_PAGE_SIZE else page_size1);
         parameters = [(''pageSize'', JNum page_size2)]
     in (case fields of
           None \<Rightarrow> parameters
         | Some fs \<Rightarrow> AList.update ''fields'' (JStr (join '','' DEFAULT_FIELDS)) parameters))"

text \<open>
  Lines 169 to 177: the \<^verbatim>\<open>while\<close> loop. \<open>res\<close> is the last decoded response, \<open>s\<close> the
  provider's state, \<open>p\<close> the progress bar and \<open>tr\<close> the events so far. The first
  argument bounds the number of times the loop condition is evaluated, since a provider
  that hands out a token with every page keeps the loop running forever: \<open>None\<close> as
  outcome says the loop has not ended within the bound, and the events are those
  observed up to there. The outcome is the way the body of the \<^verbatim>\<open>with\<close> block ends.
  \<^verbatim>\<open>len(studies)\<close> is the number of items yielded.
\<close>

fun page_loop ::
  "nat \<Rightarrow> 's provider \<Rightarrow> 'p progress \<Rightarrow> params \<Rightarrow> json \<Rightarrow> 's \<Rightarrow> 'p \<Rightarrow> event list
    \<Rightarrow> outcome option \<times> 's \<times> 'p \<times> event list"
where
  "page_loop 0 get bar parameters res s p tr = (None, s, p, tr)"
| "page_loop (Suc n) get bar parameters res s p tr =
    (case py_get res ''nextPageToken'' of
       Inl e \<Rightarrow> (Some (Raised e), s, p, tr)
     | Inr next_token \<Rightarrow>
         if \<not> truthy next_token then (Some Exhausted, s, p, tr)
         else
           (let ps = AList.update ''pageToken'' next_token parameters;
                (r, s') = get_json get s ps;
                tr' = tr @ [Request ps r]
            in case r of
                 Inl e \<Rightarrow> (Some (Raised e), s', p, tr')
               | Inr res' \<Rightarrow>
                   (case py_getitem res' ''studies'' of
                      Inl e \<Rightarrow> (Some (Raised e), s', p, tr')
                    | Inr studies \<Rightarrow>
                        (case py_iter studies of
                           Inl e \<Rightarrow> (Some (Raised e), s', p, tr')
                         | Inr ys \<Rightarrow>
                             (case tqdm_update bar p (int (length ys)) of
                                (Some e, p') \<Rightarrow> (Some (Raised e), s', p', tr' @ map Yield ys)
                              | (None, p') \<Rightarrow>
                                  page_loop n get bar parameters res' s' p' (tr' @ map Yield ys))))))"

text \<open>
  \<^verbatim>\<open>iterate_download_studies(page_size=..., fields=...)\<close> run by a consumer that takes
  every item: the first request asks for the count, \<^verbatim>\<open>totalCount\<close> is read before
  \<^verbatim>\<open>studies\<close>, the studies of the first page are yielded, the progress bar is built with
  the count and updated with the page size, the loop follows, and the \<^verbatim>\<open>with\<close> block is
  left. An exception of the constructor is raised outside the block.
\<close>

definition iterate_download_studies ::
  "nat \<Rightarrow> 's provider \<Rightarrow> 'p progress \<Rightarrow> int option \<Rightarrow> string list option \<Rightarrow> 's
    \<Rightarrow> outcome option \<times> 's \<times> event list"
where
  "iterate_download_studies n get bar page_size fields s =
    (let parameters = base_parameters page_size fields;
         ps = AList.update ''countTotal'' (JStr ''true'') parameters;
         (r, s') = get_json get s ps;
         tr = [Request ps r]
     in case r of
          Inl e \<Rightarrow> (Some (Raised e), s', tr)
        | Inr res \<Rightarrow>
            (case py_getitem res ''totalCount'' of
               Inl e \<Rightarrow> (Some (Raised e), s', tr)
             | Inr total_count \<Rightarrow>
                 (case py_getitem res ''studies'' of
                    Inl e \<Rightarrow> (Some (Raised e), s', tr)
                  | Inr studies \<Rightarrow>
                      (case py_iter studies of
                         Inl e \<Rightarrow> (Some (Raised e), s', tr)
                       | Inr ys \<Rightarrow>
                           (case tqdm_new bar total_count of
                              Inl e \<Rightarrow> (Some (Raised e), s', tr @ map Yield ys)
                            | Inr p0 \<Rightarrow>
                                (case tqdm_update bar p0 (clamp_page_size page_size) of
                                   (Some e, p1) \<Rightarrow>
                                     (Some (tqdm_exit bar p1 (Raised e)), s', tr @ map Yield ys)
                                 | (None, p1) \<Rightarrow>
                                     (case page_loop n get bar parameters res s' p1
                                             (tr @ map Yield ys) of
                                        (out, s'', p2, tr') \<Rightarrow>
                                          (map_option (tqdm_exit bar p2) out, s'', tr'))))))))"

text \<open>
  The simulated provider of the specification's tests: a script of replies, served in
  order whatever the request says; a request after the last one finds nobody.
\<close>

fun simulated :: "(error + http_response) list provider" where
  "simulated [] ps = (Inl ConnectionError, [])"
| "simulated (r # rs) ps = (r, rs)"

section \<open>The cache manager\<close>

text \<open>
  The bytes of a file are of a type \<open>'b\<close> the model does not look into. The three
  library calls that go between JSON values and bytes are parameters:
  \<^verbatim>\<open>json.load\<close> on \<^verbatim>\<open>gzip.open(PATH, "rt")\<close>, which can raise on a damaged file,
  \<^verbatim>\<open>json.dump\<close> into \<^verbatim>\<open>gzip.open(PATH, "wt")\<close>, and \<^verbatim>\<open>json.dump(..., indent=2)\<close>.
\<close>

record 'b codec =
  gzip_json_load :: "'b \<Rightarrow> error + json"
  gzip_json_dump :: "json \<Rightarrow> 'b"
  json_dump_indent :: "json \<Rightarrow> 'b"

text \<open>A file opened for reading, or opened for writing and filled.\<close>

datatype 'b file_op = Read artifact | Write artifact 'b

text \<open>
  The world \<^verbatim>\<open>get_studies\<close> runs in: the provider's state, the content of each of the two
  files (\<open>None\<close> when the file does not exist), the requests sent so far and the file
  operations done so far. Opening an existing file and writing a file are taken to
  succeed.
\<close>

record ('s, 'b) world =
  server :: 's
  files :: "artifact \<Rightarrow> 'b option"
  sent :: "params list"
  io :: "'b file_op list"

text \<open>
  Lines 107 to 115: the download is run to its end with the maximum page size and no
  field selection, and only then are the sample and the cache written, in this order.
  An exception of the generator leaves the function at line 107.
\<close>

definition refresh ::
  "nat \<Rightarrow> 'b codec \<Rightarrow> 's provider \<Rightarrow> 'p progress \<Rightarrow> ('s, 'b) world
    \<Rightarrow> ((error + json) \<times> ('s, 'b) world) option"
where
  "refresh n cd get bar w =
    (case iterate_download_studies n get bar (Some MAXIMUM_PAGE_SIZE) None (server w) of
       (None, s', tr) \<Rightarrow> None
     | (Some (Raised e), s', tr) \<Rightarrow>
         Some (Inl e, w\<lparr>server := s', sent := sent w @ requests_of tr\<rparr>)
     | (Some Exhausted, s', tr) \<Rightarrow>
         (let studies = yields_of tr;
              w1 = w\<lparr>server := s', sent := sent w @ requests_of tr\<rparr>;
              sample = json_dump_indent cd (JArr (take N_SAMPLE_ROWS studies));
              w2 = w1\<lparr>files := (files w1)(PATH_SAMPLE \<mapsto> sample),
                       io := io w1 @ [Write PATH_SAMPLE sample]\<rparr>;
              full = gzip_json_dump cd (JArr studies);
              w3 = w2\<lparr>files := (files w2)(PATH \<mapsto> full), io := io w2 @ [Write PATH full]\<rparr>
          in Some (Inr (JArr studies), w3)))"

text \<open>
  \<^verbatim>\<open>get_studies(force=...)\<close>: line 99 tests that the cache exists, then the flag. The
  result is \<open>None\<close> when the download has not ended within the bound \<open>n\<close>.
\<close>

definition get_studies ::
  "nat \<Rightarrow> 'b codec \<Rightarrow> 's provider \<Rightarrow> 'p progress \<Rightarrow> bool \<Rightarrow> ('s, 'b) world
    \<Rightarrow> ((error + json) \<times> ('s, 'b) world) option"
where
  "get_studies n cd get bar force w =
    (case files w PATH of
       Some c \<Rightarrow>
         if \<not> force then Some (gzip_json_load cd c, w\<lparr>io := io w @ [Read PATH]\<rparr>)
         else refresh n cd get bar w
     | None \<Rightarrow> refresh n cd get bar w)"

text \<open>
  \<^verbatim>\<open>upload_zenodo(client)\<close>. Without a client, lines 183 to 185 import
  \<^verbatim>\<open>zenodo_client\<close> and build one; \<open>new_client\<close> is what that gives in the environment
  at hand, a client or the exception raised. Line 187 follows, then line 188.
\<close>

definition upload_zenodo ::
  "nat \<Rightarrow> 'b codec \<Rightarrow> 's provider \<Rightarrow> 'p progress \<Rightarrow> error + 'c \<Rightarrow> 'c option
    \<Rightarrow> ('s, 'b) world \<Rightarrow> ((error + unit) \<times> ('s, 'b) world) option"
where
  "upload_zenodo n cd get bar new_client client w =
    (case (case client of None \<Rightarrow> new_client | Some c \<Rightarrow> Inr c) of
       Inl e \<Rightarrow> Some (Inl e, w)
     | Inr c \<Rightarrow>
         (case get_studies n cd get bar True w of
            None \<Rightarrow> None
          | Some (Inl e, w') \<Rightarrow> Some (Inl e, w')
          | Some (Inr studies, w') \<Rightarrow> Some (Inl NotImplementedError, w')))"

section \<open>The package's top-level module\<close>

text \<open>
  The names \<^verbatim>\<open>api.py\<close> binds at its top level once it has run (its own imports taken to
  succeed): the imported modules and names, the constants, and the three functions.
\<close>

definition api_namespace :: "string list" where
  "api_namespace =
    [''annotations'', ''gzip'', ''json'', ''logging'', ''time'', ''Iterable'',
     ''TYPE_CHECKING'', ''Any'', ''TypeAlias'', ''cast'', ''pystow'', ''requests'', ''tqdm'',
     ''__all__'', ''logger'', ''DEFAULT_FIELDS'', ''SLIM_FIELDS'', ''STUDIES_ENDPOINT_URL'',
     ''MODULE'', ''PATH'', ''PATH_SAMPLE'', ''MAXIMUM_PAGE_SIZE'', ''N_SAMPLE_ROWS'',
     ''RawStudy'', ''get_studies'', ''iterate_download_studies'', ''upload_zenodo'']"

text \<open>\<^verbatim>\<open>__all__\<close> of \<^verbatim>\<open>api.py\<close> and of \<^verbatim>\<open>__init__.py\<close>.\<close>

definition api_all :: "string list" where
  "api_all = [''get_studies'', ''iterate_download_studies'', ''upload_zenodo'']"

definition init_all :: "string list" where
  "init_all = [''hello'', ''square'']"

text \<open>
  \<^verbatim>\<open>from module import a, b, ...\<close> for a module that is a single file: the names are
  looked up in order, and the first one the module does not bind raises
  \<^verbatim>\<open>ImportError\<close>; otherwise the names are bound in the importing module.
\<close>

fun import_from :: "string list \<Rightarrow> string list \<Rightarrow> error + string list" where
  "import_from namespace [] = Inr []"
| "import_from namespace (x # xs) =
    (if x \<in> set namespace
     then (case import_from namespace xs of Inl e \<Rightarrow> Inl e | Inr bound \<Rightarrow> Inr (x # bound))
     else Inl (ImportError x))"

text \<open>
  Running \<^verbatim>\<open>__init__.py\<close>: line 3 is \<^verbatim>\<open>from .api import hello, square\<close>, then
  \<^verbatim>\<open>__all__\<close> is bound. The result is the package's namespace.
\<close>

definition package_init :: "error + string list" where
  "package_init =
    (case import_from api_namespace [''hello'', ''square''] of
       Inl e \<Rightarrow> Inl e
     | Inr bound \<Rightarrow> Inr (bound @ [''__all__'']))"

section \<open>Vocabulary of the properties\<close>

text \<open>The parameters of the first request: the shared ones and \<^verbatim>\<open>countTotal\<close>.\<close>

abbreviation first_parameters :: "int option \<Rightarrow> string list option \<Rightarrow> params" where
  "first_parameters page_size flds \<equiv>
    AList.update ''countTotal'' (JStr ''true'') (base_parameters page_size flds)"

text \<open>\<^verbatim>\<open>k in r\<close> for a response \<open>r\<close> that is a dictionary.\<close>

definition has_key :: "json \<Rightarrow> string \<Rightarrow> bool" where
  "has_key r k = (case r of JObj kvs \<Rightarrow> map_of kvs k \<noteq> None | _ \<Rightarrow> False)"

text \<open>The total the progress bar is built with, read from the first response.\<close>

definition count_of :: "json \<Rightarrow> json" where
  "count_of r = (case py_getitem r ''totalCount'' of Inl e \<Rightarrow> JNull | Inr c \<Rightarrow> c)"

text \<open>The updates of a bar in order, up to the first that raises.\<close>

fun bar_updates :: "'p progress \<Rightarrow> 'p \<Rightarrow> int list \<Rightarrow> error option \<times> 'p" where
  "bar_updates bar p [] = (None, p)"
| "bar_updates bar p (k # ks) =
    (case tqdm_update bar p k of
       (Some e, p') \<Rightarrow> (Some e, p')
     | (None, p') \<Rightarrow> bar_updates bar p' ks)"

text \<open>
  The progress bar stays out of the way of a session: it can be built with the total,
  takes the updates without raising, and leaving the block after them passes on the way
  \<open>out\<close> in which the body ended.
\<close>

definition bar_silent :: "'p progress \<Rightarrow> json \<Rightarrow> int list \<Rightarrow> outcome \<Rightarrow> bool" where
  "bar_silent bar total_count ks out =
    (case tqdm_new bar total_count of
       Inl e \<Rightarrow> False
     | Inr p0 \<Rightarrow>
         (case bar_updates bar p0 ks of
            (Some e, p) \<Rightarrow> False
          | (None, p) \<Rightarrow> tqdm_exit bar p out = out))"

text \<open>The value the loop condition reads from a response.\<close>

definition next_token :: "json \<Rightarrow> json" where
  "next_token r = (case py_get r ''nextPageToken'' of Inl e \<Rightarrow> JNull | Inr t \<Rightarrow> t)"

text \<open>A page: a response whose \<^verbatim>\<open>studies\<close> is a list; \<open>records\<close> are its elements.\<close>

definition is_page :: "json \<Rightarrow> bool" where
  "is_page r = (case py_getitem r ''studies'' of Inr (JArr xs) \<Rightarrow> True | _ \<Rightarrow> False)"

definition records :: "json \<Rightarrow> json list" where
  "records r = (case py_getitem r ''studies'' of Inr (JArr xs) \<Rightarrow> xs | _ \<Rightarrow> [])"

text \<open>The numbers a session over the given pages updates its bar with.\<close>

definition session_updates :: "int option \<Rightarrow> json list \<Rightarrow> int list" where
  "session_updates page_size pages =
    clamp_page_size page_size # map (\<lambda>r. int (length (records r))) (tl pages)"

text \<open>
  The expected key a response lacks, if any: \<^verbatim>\<open>totalCount\<close> is expected of the first
  response only and is read first, \<^verbatim>\<open>studies\<close> is expected of every response.
\<close>

definition missing_key :: "bool \<Rightarrow> json \<Rightarrow> string option" where
  "missing_key first r =
    (if first \<and> \<not> has_key r ''totalCount'' then Some ''totalCount''
     else if \<not> has_key r ''studies'' then Some ''studies''
     else None)"

text \<open>
  The exchanges of the loop follow the tokens: each request is the shared parameters
  with \<^verbatim>\<open>pageToken\<close> set to the true token of the response before it, and nothing
  follows a request that failed.
\<close>

fun token_chain :: "params \<Rightarrow> json \<Rightarrow> (params \<times> response) list \<Rightarrow> bool" where
  "token_chain P res [] = True"
| "token_chain P res ((ps, r) # xs) =
    (case py_get res ''nextPageToken'' of
       Inl e \<Rightarrow> False
     | Inr t \<Rightarrow> truthy t \<and> ps = AList.update ''pageToken'' t P \<and>
         (case r of Inl e \<Rightarrow> xs = [] | Inr res' \<Rightarrow> token_chain P res' xs))"

subsection \<open>Concrete inputs\<close>

text \<open>
  The end-to-end scenario of the specification: twelve studies, ten on the first page
  with the token \<^verbatim>\<open>tok1\<close>, two on the second page, which has no token.
\<close>

definition study :: "int \<Rightarrow> json" where
  "study i = JObj [(''NCTId'', JNum i)]"

definition example_page1 :: json where
  "example_page1 = JObj [(''totalCount'', JNum 12),
     (''studies'', JArr (map study [1, 2, 3, 4, 5, 6, 7, 8, 9, 10])),
     (''nextPageToken'', JStr ''tok1'')]"

definition example_page2 :: json where
  "example_page2 = JObj [(''studies'', JArr (map study [11, 12]))]"

text \<open>A reply with the given status code whose body is the given JSON value.\<close>

definition replied :: "nat \<Rightarrow> json \<Rightarrow> error + http_response" where
  "replied code j = Inr (Response code (Inr j))"

abbreviation ok :: "json \<Rightarrow> error + http_response" where
  "ok \<equiv> replied 200"

text \<open>The least integer that Python does not convert to a float.\<close>

definition float_limit :: int where
  "float_limit = 2 ^ 1024 - 2 ^ 970"

text \<open>
  A progress bar for the examples. It counts. It cannot be built with a total that is a
  string, a list or a dictionary with something in it, nor with an integer beyond the
  range of a float, since its first display adds a half to a total that Python takes as
  true. It raises nowhere else.
\<close>

definition demo_bar :: "int progress" where
  "demo_bar =
    Progress
      (\<lambda>total_count. case total_count of
          JStr (c # cs) \<Rightarrow> Inl TypeError
        | JArr (x # xs) \<Rightarrow> Inl TypeError
        | JObj (kv # kvs) \<Rightarrow> Inl TypeError
        | JNum c \<Rightarrow> if float_limit \<le> \<bar>c\<bar> then Inl OverflowError else Inr 0
        | _ \<Rightarrow> Inr 0)
      (\<lambda>p k. (None, p + k))
      (\<lambda>p out. out)"

text \<open>A first page whose token is the empty string.\<close>

definition empty_token_page :: json where
  "empty_token_page = JObj [(''totalCount'', JNum 3),
     (''studies'', JArr [study 1]),
     (''nextPageToken'', JStr [])]"

text \<open>A first page whose total count is a string.\<close>

definition string_count_page :: json where
  "string_count_page = JObj [(''totalCount'', JStr ''12''),
     (''studies'', JArr [study 1]),
     (''nextPageToken'', JStr ''tok1'')]"

text \<open>
  File contents that remember what was written: a gzip file of a JSON value, a plain text
  file of a JSON value, or bytes that are neither.
\<close>

datatype blob = Gz json | Text json | Damaged

definition demo_codec :: "blob codec" where
  "demo_codec =
    \<lparr>gzip_json_load = (\<lambda>b. case b of Gz j \<Rightarrow> Inr j | Text j \<Rightarrow> Inl BadGzipFile
                                 | Damaged \<Rightarrow> Inl BadGzipFile),
     gzip_json_dump = Gz,
     json_dump_indent = Text\<rparr>"

text \<open>A cache left by an earlier download.\<close>

definition old_cache :: blob where
  "old_cache = Gz (JArr [study 0])"

text \<open>A world with a scripted provider, no request sent yet and the given cache file.\<close>

definition demo_world ::
  "(error + http_response) list \<Rightarrow> blob option \<Rightarrow> ((error + http_response) list, blob) world"
where
  "demo_world script cache =
    \<lparr>server = script, files = (\<lambda>a. if a = PATH then cache else None), sent = [], io = []\<rparr>"

text \<open>The result of a call and a file after it, when the call has ended.\<close>

definition result_of :: "('r \<times> ('s, 'b) world) option \<Rightarrow> 'r option" where
  "result_of x = map_option fst x"

definition file_after :: "('r \<times> ('s, 'b) world) option \<Rightarrow> artifact \<Rightarrow> 'b option" where
  "file_after x a = (case x of None \<Rightarrow> None | Some (r, w) \<Rightarrow> files w a)"

definition sent_after :: "('r \<times> ('s, 'b) world) option \<Rightarrow> params list" where
  "sent_after x = (case x of None \<Rightarrow> [] | Some (r, w) \<Rightarrow> sent w)"

section \<open>Properties of the fetcher\<close>

lemma requests_of_append [simp]: "requests_of (xs @ ys) = requests_of xs @ requests_of ys"
  by (induction xs rule: requests_of.induct) simp_all

lemma exchanges_of_append [simp]: "exchanges_of (xs @ ys) = exchanges_of xs @ exchanges_of ys"
  by (induction xs rule: exchanges_of.induct) simp_all

lemma yields_of_append [simp]: "yields_of (xs @ ys) = yields_of xs @ yields_of ys"
  by (induction xs rule: yields_of.induct) simp_all

lemma requests_of_Yield [simp]: "requests_of (map Yield ys) = []"
  by (induction ys) simp_all

lemma exchanges_of_Yield [simp]: "exchanges_of (map Yield ys) = []"
  by (induction ys) simp_all

lemma yields_of_Yield [simp]: "yields_of (map Yield ys) = ys"
  by (induction ys) simp_all

lemma requests_of_exchanges: "requests_of tr = map fst (exchanges_of tr)"
  by (induction tr rule: requests_of.induct) simp_all


lemma page_loop_Suc_cases [consumes 1]:
  assumes "page_loop (Suc n) get bar P res s p tr = (out, s', p', tr')"
  obtains
    (broken) e where "py_get res ''nextPageToken'' = Inl e" "out = Some (Raised e)" "s' = s"
      "p' = p" "tr' = tr"
  | (stop) t where "py_get res ''nextPageToken'' = Inr t" "\<not> truthy t"
      "out = Some Exhausted" "s' = s" "p' = p" "tr' = tr"
  | (abort_get) t e where "py_get res ''nextPageToken'' = Inr t" "truthy t"
      "get_json get s (AList.update ''pageToken'' t P) = (Inl e, s')"
      "out = Some (Raised e)" "p' = p"
      "tr' = tr @ [Request (AList.update ''pageToken'' t P) (Inl e)]"
  | (abort_key) t res' e where "py_get res ''nextPageToken'' = Inr t" "truthy t"
      "get_json get s (AList.update ''pageToken'' t P) = (Inr res', s')"
      "py_getitem res' ''studies'' = Inl e"
      "out = Some (Raised e)" "p' = p"
      "tr' = tr @ [Request (AList.update ''pageToken'' t P) (Inr res')]"
  | (abort_iter) t res' st e where "py_get res ''nextPageToken'' = Inr t" "truthy t"
      "get_json get s (AList.update ''pageToken'' t P) = (Inr res', s')"
      "py_getitem res' ''studies'' = Inr st" "py_iter st = Inl e"
      "out = Some (Raised e)" "p' = p"
      "tr' = tr @ [Request (AList.update ''pageToken'' t P) (Inr res')]"
  | (abort_bar) t res' st ys e where "py_get res ''nextPageToken'' = Inr t" "truthy t"
      "get_json get s (AList.update ''pageToken'' t P) = (Inr res', s')"
      "py_getitem res' ''studies'' = Inr st" "py_iter st = Inr ys"
      "tqdm_update bar p (int (length ys)) = (Some e, p')"
      "out = Some (Raised e)"
      "tr' = tr @ Request (AList.update ''pageToken'' t P) (Inr res') # map Yield ys"
  | (step) t res' s1 st ys p1 where "py_get res ''nextPageToken'' = Inr t" "truthy t"
      "get_json get s (AList.update ''pageToken'' t P) = (Inr res', s1)"
      "py_getitem res' ''studies'' = Inr st" "py_iter st = Inr ys"
      "tqdm_update bar p (int (length ys)) = (None, p1)"
      "page_loop n get bar P res' s1 p1
         (tr @ Request (AList.update ''pageToken'' t P) (Inr res') # map Yield ys) =
       (out, s', p', tr')"
proof (cases "py_get res ''nextPageToken''")
  case (Inl e)
  with assms broken show ?thesis by simp
next
  case (Inr t)
  note tok = this
  show ?thesis
  proof (cases "truthy t")
    case False
    with assms tok stop show ?thesis by simp
  next
    case True
    obtain r s1 where g: "get_json get s (AList.update ''pageToken'' t P) = (r, s1)"
      by (cases "get_json get s (AList.update ''pageToken'' t P)")
    show ?thesis
    proof (cases r)
      case (Inl e)
      with assms tok True g abort_get show ?thesis by simp
    next
      case (Inr res')
      note r = this
      show ?thesis
      proof (cases "py_getitem res' ''studies''")
        case (Inl e)
        with assms tok True g r abort_key show ?thesis by simp
      next
        case (Inr st)
        note st = this
        show ?thesis
        proof (cases "py_iter st")
          case (Inl e)
          with assms tok True g r st abort_iter show ?thesis by simp
        next
          case (Inr ys)
          note ys = this
          obtain eo p1 where u: "tqdm_update bar p (int (length ys)) = (eo, p1)"
            by (cases "tqdm_update bar p (int (length ys))")
          show ?thesis
          proof (cases eo)
            case None
            with assms tok True g r st ys u step show ?thesis by simp
          next
            case (Some e)
            with assms tok True g r st ys u abort_bar show ?thesis by simp
          qed
        qed
      qed
    qed
  qed
qed

lemma iterate_cases [consumes 1]:
  assumes "iterate_download_studies n get bar page_size flds s = (out, s', tr)"
  obtains
    (abort_get) e where "get_json get s (first_parameters page_size flds) = (Inl e, s')"
      "out = Some (Raised e)" "tr = [Request (first_parameters page_size flds) (Inl e)]"
  | (abort_count) res e where "get_json get s (first_parameters page_size flds) = (Inr res, s')"
      "py_getitem res ''totalCount'' = Inl e"
      "out = Some (Raised e)" "tr = [Request (first_parameters page_size flds) (Inr res)]"
  | (abort_key) res c e where "get_json get s (first_parameters page_size flds) = (Inr res, s')"
      "py_getitem res ''totalCount'' = Inr c" "py_getitem res ''studies'' = Inl e"
      "out = Some (Raised e)" "tr = [Request (first_parameters page_size flds) (Inr res)]"
  | (abort_iter) res c st e where
      "get_json get s (first_parameters page_size flds) = (Inr res, s')"
      "py_getitem res ''totalCount'' = Inr c"
      "py_getitem res ''studies'' = Inr st" "py_iter st = Inl e"
      "out = Some (Raised e)" "tr = [Request (first_parameters page_size flds) (Inr res)]"
  | (abort_new) res c st ys e where
      "get_json get s (first_parameters page_size flds) = (Inr res, s')"
      "py_getitem res ''totalCount'' = Inr c"
      "py_getitem res ''studies'' = Inr st" "py_iter st = Inr ys"
      "tqdm_new bar c = Inl e"
      "out = Some (Raised e)"
      "tr = Request (first_parameters page_size flds) (Inr res) # map Yield ys"
  | (abort_update) res c st ys p0 e p1 where
      "get_json get s (first_parameters page_size flds) = (Inr res, s')"
      "py_getitem res ''totalCount'' = Inr c"
      "py_getitem res ''studies'' = Inr st" "py_iter st = Inr ys"
      "tqdm_new bar c = Inr p0"
      "tqdm_update bar p0 (clamp_page_size page_size) = (Some e, p1)"
      "out = Some (tqdm_exit bar p1 (Raised e))"
      "tr = Request (first_parameters page_size flds) (Inr res) # map Yield ys"
  | (step) res s1 c st ys p0 p1 lout p2 where
      "get_json get s (first_parameters page_size flds) = (Inr res, s1)"
      "py_getitem res ''totalCount'' = Inr c"
      "py_getitem res ''studies'' = Inr st" "py_iter st = Inr ys"
      "tqdm_new bar c = Inr p0"
      "tqdm_update bar p0 (clamp_page_size page_size) = (None, p1)"
      "page_loop n get bar (base_parameters page_size flds) res s1 p1
         (Request (first_parameters page_size flds) (Inr res) # map Yield ys) = (lout, s', p2, tr)"
      "out = map_option (tqdm_exit bar p2) lout"
proof -
  obtain r s1 where g: "get_json get s (first_parameters page_size flds) = (r, s1)"
    by (cases "get_json get s (first_parameters page_size flds)")
  note d = iterate_download_studies_def Let_def
  show ?thesis
  proof (cases r)
    case (Inl e)
    with assms g abort_get show ?thesis by (simp add: d)
  next
    case (Inr res)
    note r = this
    show ?thesis
    proof (cases "py_getitem res ''totalCount''")
      case (Inl e)
      with assms g r abort_count show ?thesis by (simp add: d)
    next
      case (Inr c)
      note c = this
      show ?thesis
      proof (cases "py_getitem res ''studies''")
        case (Inl e)
        with assms g r c abort_key show ?thesis by (simp add: d)
      next
        case (Inr st)
        note st = this
        show ?thesis
        proof (cases "py_iter st")
          case (Inl e)
          with assms g r c st abort_iter show ?thesis by (simp add: d)
        next
          case (Inr ys)
          note ys = this
          show ?thesis
          proof (cases "tqdm_new bar c")
            case (Inl e)
            with assms g r c st ys abort_new show ?thesis by (simp add: d)
          next
            case (Inr p0)
            note p0 = this
            obtain eo p1 where u: "tqdm_update bar p0 (clamp_page_size page_size) = (eo, p1)"
              by (cases "tqdm_update bar p0 (clamp_page_size page_size)")
            show ?thesis
            proof (cases eo)
              case (Some e)
              with assms g r c st ys p0 u abort_update show ?thesis by (simp add: d)
            next
              case None
              obtain lout s2 p2 tr2 where
                l: "page_loop n get bar (base_parameters page_size flds) res s1 p1
                  (Request (first_parameters page_size flds) (Inr res) # map Yield ys) =
                  (lout, s2, p2, tr2)"
                by (cases "page_loop n get bar (base_parameters page_size flds) res s1 p1
                  (Request (first_parameters page_size flds) (Inr res) # map Yield ys)")
              with assms g r c st ys p0 u None have "out = map_option (tqdm_exit bar p2) lout"
                "s' = s2" "tr = tr2"
                by (simp_all add: d)
              with g r c st ys p0 u None l step show ?thesis by simp
            qed
          qed
        qed
      qed
    qed
  qed
qed

lemma page_loop_chain:
  "page_loop n get bar P res s p tr = (out, s', p', tr') \<Longrightarrow>
    \<exists>new. tr' = tr @ new \<and> token_chain P res (exchanges_of new)"
proof (induction n arbitrary: res s p tr)
  case 0
  then show ?case by simp
next
  case (Suc n)
  from Suc.prems show ?case
  proof (cases rule: page_loop_Suc_cases)
    case (broken e)
    then show ?thesis by simp
  next
    case (stop t)
    then show ?thesis by simp
  next
    case (abort_get t e)
    then have "token_chain P res (exchanges_of [Request (AList.update ''pageToken'' t P) (Inl e)])"
      by simp
    with abort_get(6) show ?thesis by blast
  next
    case (abort_key t res' e)
    then have "token_chain P res (exchanges_of [Request (AList.update ''pageToken'' t P) (Inr res')])"
      by simp
    with abort_key(7) show ?thesis by blast
  next
    case (abort_iter t res' st e)
    then have "token_chain P res (exchanges_of [Request (AList.update ''pageToken'' t P) (Inr res')])"
      by simp
    with abort_iter(8) show ?thesis by blast
  next
    case (abort_bar t res' st ys e)
    then have "token_chain P res
        (exchanges_of (Request (AList.update ''pageToken'' t P) (Inr res') # map Yield ys))"
      by simp
    with abort_bar(8) show ?thesis by blast
  next
    case (step t res' s1 st ys p1)
    let ?e = "Request (AList.update ''pageToken'' t P) (Inr res')"
    from Suc.IH[OF step(7)] obtain new where
      new: "tr' = (tr @ ?e # map Yield ys) @ new" "token_chain P res' (exchanges_of new)"
      by blast
    from new(1) have "tr' = tr @ (?e # map Yield ys @ new)" by simp
    moreover from new(2) step(1,2) have "token_chain P res (exchanges_of (?e # map Yield ys @ new))"
      by simp
    ultimately show ?thesis by blast
  qed
qed

lemma page_loop_failed_fetch:
  "page_loop n get bar P res s p tr = (out, s', p', tr') \<Longrightarrow>
    (ps, Inl e) \<notin> set (exchanges_of tr) \<Longrightarrow> (ps, Inl e) \<in> set (exchanges_of tr') \<Longrightarrow>
    out = Some (Raised e)"
proof (induction n arbitrary: res s p tr)
  case 0
  then show ?case by simp
next
  case (Suc n)
  from Suc.prems(1) show ?case
  proof (cases rule: page_loop_Suc_cases)
    case (broken e')
    with Suc.prems(2,3) show ?thesis by simp
  next
    case (stop t)
    with Suc.prems(2,3) show ?thesis by simp
  next
    case (abort_get t e')
    with Suc.prems(2,3) show ?thesis by simp
  next
    case (abort_key t res' e')
    with Suc.prems(2,3) show ?thesis by simp
  next
    case (abort_iter t res' st e')
    with Suc.prems(2,3) show ?thesis by simp
  next
    case (abort_bar t res' st ys e')
    with Suc.prems(2,3) show ?thesis by simp
  next
    case (step t res' s1 st ys p1)
    from Suc.prems(2)
    have "(ps, Inl e) \<notin> set (exchanges_of (tr @ Request (AList.update ''pageToken'' t P) (Inr res') # map Yield ys))"
      by simp
    from Suc.IH[OF step(7) this Suc.prems(3)] show ?thesis .
  qed
qed

lemma is_page_studies: "is_page r \<Longrightarrow> py_getitem r ''studies'' = Inr (JArr (records r))"
  by (auto simp: is_page_def records_def split: sum.splits json.splits)

lemma is_page_token: "is_page r \<Longrightarrow> py_get r ''nextPageToken'' = Inr (next_token r)"
  by (cases r) (auto simp: is_page_def next_token_def split: option.splits)

lemma has_key_count: "has_key r ''totalCount'' \<Longrightarrow> py_getitem r ''totalCount'' = Inr (count_of r)"
  by (cases r) (auto simp: has_key_def count_of_def)

lemma get_json_simulated_replied [simp]:
  "get_json simulated (replied code j # rest) ps = (Inr j, rest)"
  by (simp add: get_json_def replied_def)

lemma get_json_simulated_error [simp]:
  "get_json simulated (Inl e # rest) ps = (Inl e, rest)"
  by (simp add: get_json_def)

lemma get_json_simulated_empty [simp]:
  "get_json simulated [] ps = (Inl ConnectionError, [])"
  by (simp add: get_json_def)

lemma bar_updates_Cons_None:
  assumes "bar_updates bar p (k # ks) = (None, p')"
  obtains p1 where "tqdm_update bar p k = (None, p1)" "bar_updates bar p1 ks = (None, p')"
  using assms by (auto split: prod.splits option.splits)

lemma page_loop_simulated_pages:
  assumes "\<forall>r\<in>set pages. is_page r" and "is_page res"
    and "\<forall>r\<in>set (butlast (res # pages)). truthy (next_token r)"
    and "\<not> truthy (next_token (last (res # pages)))"
    and "length pages < n"
    and "bar_updates bar p (map (\<lambda>r. int (length (records r))) pages) = (None, p')"
  shows "\<exists>new. page_loop n simulated bar P res (map ok pages @ rest) p tr =
      (Some Exhausted, rest, p', tr @ new)
    \<and> yields_of new = concat (map records pages) \<and> length (requests_of new) = length pages"
  using assms
proof (induction pages arbitrary: res n p tr)
  case Nil
  then obtain m where n: "n = Suc m" by (cases n) auto
  from Nil show ?case by (simp add: n is_page_token)
next
  case (Cons q pages)
  then obtain m where n: "n = Suc m" by (cases n) auto
  from Cons.prems have q: "is_page q" and t: "truthy (next_token res)" by simp_all
  from Cons.prems(6)
  have "bar_updates bar p (int (length (records q)) # map (\<lambda>r. int (length (records r))) pages) =
      (None, p')"
    by simp
  then obtain p1 where
    u: "tqdm_update bar p (int (length (records q))) = (None, p1)"
    and us: "bar_updates bar p1 (map (\<lambda>r. int (length (records r))) pages) = (None, p')"
    by (rule bar_updates_Cons_None)
  let ?e = "Request (AList.update ''pageToken'' (next_token res) P) (Inr q)"
  let ?tr = "(tr @ [?e]) @ map Yield (records q)"
  have step: "page_loop n simulated bar P res (map ok (q # pages) @ rest) p tr =
    page_loop m simulated bar P q (map ok pages @ rest) p1 ?tr"
    using Cons.prems(2) q t u by (simp add: n is_page_token is_page_studies)
  have "\<exists>new. page_loop m simulated bar P q (map ok pages @ rest) p1 ?tr =
      (Some Exhausted, rest, p', ?tr @ new)
    \<and> yields_of new = concat (map records pages) \<and> length (requests_of new) = length pages"
    by (rule Cons.IH) (use Cons.prems(1-5) n q us in \<open>simp_all split: if_splits\<close>)
  then obtain new where new:
    "page_loop m simulated bar P q (map ok pages @ rest) p1 ?tr =
      (Some Exhausted, rest, p', ?tr @ new)"
    "yields_of new = concat (map records pages)" "length (requests_of new) = length pages"
    by blast
  have "page_loop n simulated bar P res (map ok (q # pages) @ rest) p tr =
      (Some Exhausted, rest, p', tr @ (?e # map Yield (records q) @ new))"
    using step new(1) by simp
  moreover have "yields_of (?e # map Yield (records q) @ new) = concat (map records (q # pages))"
    using new(2) by simp
  moreover have "length (requests_of (?e # map Yield (records q) @ new)) = length (q # pages)"
    using new(3) by simp
  ultimately show ?case by blast
qed

lemma page_loop_simulated_bad:
  assumes "\<forall>r\<in>set good. is_page r \<and> truthy (next_token r)"
    and "is_page res" and "truthy (next_token res)"
    and "map_of kvs ''studies'' = None"
    and "length good < n"
    and "bar_updates bar p (map (\<lambda>r. int (length (records r))) good) = (None, p')"
  shows "\<exists>new ps. page_loop n simulated bar P res (map ok good @ ok (JObj kvs) # rest) p tr =
      (Some (Raised (KeyError ''studies'')), rest, p', tr @ new @ [Request ps (Inr (JObj kvs))])
    \<and> yields_of new = concat (map records good) \<and> length (requests_of new) = length good"
  using assms
proof (induction good arbitrary: res n p tr)
  case Nil
  then obtain m where n: "n = Suc m" by (cases n) auto
  from Nil have "page_loop n simulated bar P res (map ok [] @ ok (JObj kvs) # rest) p tr =
      (Some (Raised (KeyError ''studies'')), rest, p',
       tr @ [] @ [Request (AList.update ''pageToken'' (next_token res) P) (Inr (JObj kvs))])"
    by (simp add: n is_page_token)
  then show ?case by force
next
  case (Cons q good)
  then obtain m where n: "n = Suc m" by (cases n) auto
  from Cons.prems have q: "is_page q" "truthy (next_token q)" by simp_all
  from Cons.prems(6)
  have "bar_updates bar p (int (length (records q)) # map (\<lambda>r. int (length (records r))) good) =
      (None, p')"
    by simp
  then obtain p1 where
    u: "tqdm_update bar p (int (length (records q))) = (None, p1)"
    and us: "bar_updates bar p1 (map (\<lambda>r. int (length (records r))) good) = (None, p')"
    by (rule bar_updates_Cons_None)
  let ?e = "Request (AList.update ''pageToken'' (next_token res) P) (Inr q)"
  let ?tr = "(tr @ [?e]) @ map Yield (records q)"
  have step: "page_loop n simulated bar P res (map ok (q # good) @ ok (JObj kvs) # rest) p tr =
    page_loop m simulated bar P q (map ok good @ ok (JObj kvs) # rest) p1 ?tr"
    using Cons.prems(2,3) q u by (simp add: n is_page_token is_page_studies)
  have "\<exists>new ps. page_loop m simulated bar P q (map ok good @ ok (JObj kvs) # rest) p1 ?tr =
      (Some (Raised (KeyError ''studies'')), rest, p', ?tr @ new @ [Request ps (Inr (JObj kvs))])
    \<and> yields_of new = concat (map records good) \<and> length (requests_of new) = length good"
    by (rule Cons.IH) (use Cons.prems(1-5) n q us in simp_all)
  then obtain new ps where new:
    "page_loop m simulated bar P q (map ok good @ ok (JObj kvs) # rest) p1 ?tr =
      (Some (Raised (KeyError ''studies'')), rest, p', ?tr @ new @ [Request ps (Inr (JObj kvs))])"
    "yields_of new = concat (map records good)" "length (requests_of new) = length good"
    by blast
  have "page_loop n simulated bar P res (map ok (q # good) @ ok (JObj kvs) # rest) p tr =
      (Some (Raised (KeyError ''studies'')), rest, p',
       tr @ (?e # map Yield (records q) @ new) @ [Request ps (Inr (JObj kvs))])"
    using step new(1) by simp
  moreover have "yields_of (?e # map Yield (records q) @ new) = concat (map records (q # good))"
    using new(2) by simp
  moreover have "length (requests_of (?e # map Yield (records q) @ new)) = length (q # good)"
    using new(3) by simp
  ultimately show ?case by blast
qed


lemma base_parameters_pageSize:
  "map_of (base_parameters page_size flds) ''pageSize'' =
    Some (JNum (case page_size of None \<Rightarrow> MAXIMUM_PAGE_SIZE
       | Some p \<Rightarrow> if p > MAXIMUM_PAGE_SIZE then MAXIMUM_PAGE_SIZE else p))"
  by (simp add: base_parameters_def Let_def update_conv' split: option.splits)

lemma base_parameters_fields:
  "map_of (base_parameters page_size flds) ''fields'' =
    (case flds of None \<Rightarrow> None | Some F \<Rightarrow> Some (JStr (join '','' DEFAULT_FIELDS)))"
  by (simp add: base_parameters_def Let_def update_conv' split: option.splits)

lemma token_chain_requests:
  "token_chain P res xs \<Longrightarrow> x \<in> set xs \<Longrightarrow> \<exists>t. fst x = AList.update ''pageToken'' t P"
proof (induction xs arbitrary: res)
  case Nil
  then show ?case by simp
next
  case (Cons y xs)
  obtain ps r where y: "y = (ps, r)" by (cases y)
  show ?case
  proof (cases "x = y")
    case True
    with Cons.prems(1) y show ?thesis by (auto split: sum.splits)
  next
    case False
    with Cons.prems(2) have x: "x \<in> set xs" by simp
    then have "xs \<noteq> []" by auto
    with Cons.prems(1) y obtain res' where "token_chain P res' xs"
      by (auto split: sum.splits)
    from Cons.IH[OF this x] show ?thesis .
  qed
qed

lemma clamp_page_size_parameter:
  "map_of (base_parameters page_size flds) ''pageSize'' = Some (JNum (clamp_page_size page_size))"
  by (simp add: base_parameters_pageSize clamp_page_size_def Let_def split: option.splits)

lemma iterate_exchanges:
  assumes "iterate_download_studies n get bar page_size flds s = (out, s', tr)"
  shows "\<exists>r xs. exchanges_of tr = (first_parameters page_size flds, r) # xs
    \<and> (case r of Inl e \<Rightarrow> xs = [] | Inr res \<Rightarrow> token_chain (base_parameters page_size flds) res xs)"
  using assms
proof (cases rule: iterate_cases)
  case (step res s1 c st ys p0 p1 lout p2)
  let ?P = "base_parameters page_size flds"
  let ?e = "Request (first_parameters page_size flds) (Inr res)"
  from page_loop_chain[OF step(7)] obtain new where
    "tr = (?e # map Yield ys) @ new" "token_chain ?P res (exchanges_of new)"
    by blast
  then show ?thesis by simp
qed simp_all

lemma iterate_requests:
  assumes "iterate_download_studies n get bar page_size flds s = (out, s', tr)"
    and "ps \<in> set (requests_of tr)"
  shows "\<exists>k v. (k = ''countTotal'' \<or> k = ''pageToken'') \<and>
    ps = AList.update k v (base_parameters page_size flds)"
proof -
  let ?P = "base_parameters page_size flds"
  from iterate_exchanges[OF assms(1)] obtain r xs where
    ex: "exchanges_of tr = (first_parameters page_size flds, r) # xs"
    and ch: "case r of Inl e \<Rightarrow> xs = [] | Inr res \<Rightarrow> token_chain ?P res xs"
    by blast
  from assms(2) ex have "ps = first_parameters page_size flds \<or> ps \<in> fst ` set xs"
    by (auto simp: requests_of_exchanges)
  then show ?thesis
  proof
    assume "ps = first_parameters page_size flds"
    then show ?thesis by blast
  next
    assume "ps \<in> fst ` set xs"
    then obtain x where x: "x \<in> set xs" "ps = fst x" by blast
    then have "xs \<noteq> []" by auto
    with ch obtain res where "token_chain ?P res xs" by (auto split: sum.splits)
    from token_chain_requests[OF this x(1)] x(2) show ?thesis by blast
  qed
qed

lemma iterate_failed_fetch:
  assumes "iterate_download_studies n get bar page_size flds s = (out, s', tr)"
    and "(ps, Inl e) \<in> set (exchanges_of tr)"
  shows "out = Some (Raised e) \<or> (\<exists>p. out = Some (tqdm_exit bar p (Raised e)))"
  using assms(1)
proof (cases rule: iterate_cases)
  case (abort_get e')
  with assms(2) show ?thesis by simp
next
  case (abort_count res e')
  with assms(2) show ?thesis by simp
next
  case (abort_key res c e')
  with assms(2) show ?thesis by simp
next
  case (abort_iter res c st e')
  with assms(2) show ?thesis by simp
next
  case (abort_new res c st ys e')
  with assms(2) show ?thesis by simp
next
  case (abort_update res c st ys p0 e' p1)
  with assms(2) show ?thesis by simp
next
  case (step res s1 c st ys p0 p1 lout p2)
  have "(ps, Inl e) \<notin> set (exchanges_of (Request (first_parameters page_size flds) (Inr res) # map Yield ys))"
    by simp
  from page_loop_failed_fetch[OF step(7) this assms(2)] have "lout = Some (Raised e)" .
  with step(8) show ?thesis by auto
qed

lemma bar_silent_cases:
  assumes "bar_silent bar c (k # ks) out"
  obtains p0 p1 p where "tqdm_new bar c = Inr p0" "tqdm_update bar p0 k = (None, p1)"
    "bar_updates bar p1 ks = (None, p)" "tqdm_exit bar p out = out"
proof -
  from assms obtain p0 p where p0: "tqdm_new bar c = Inr p0"
    and us: "bar_updates bar p0 (k # ks) = (None, p)" and ex: "tqdm_exit bar p out = out"
    by (auto simp: bar_silent_def split: sum.splits prod.splits option.splits)
  from us obtain p1 where "tqdm_update bar p0 k = (None, p1)" "bar_updates bar p1 ks = (None, p)"
    by (rule bar_updates_Cons_None)
  with p0 ex that show ?thesis by blast
qed

text \<open>
  Claim C4. A page size above the provider maximum of 1000 is clamped, not rejected: the
  first request is sent, and every request of the session carries \<^verbatim>\<open>pageSize\<close> equal to
  1000, whatever the provider answers, whatever the progress bar does and however long
  the session runs.
\<close>

theorem page_size_clamped:
  assumes "1000 < P"
    and "iterate_download_studies n get bar (Some P) flds s = (out, s', tr)"
  shows "requests_of tr \<noteq> [] \<and>
    (\<forall>ps\<in>set (requests_of tr). map_of ps ''pageSize'' = Some (JNum 1000))"
proof
  from iterate_exchanges[OF assms(2)] show "requests_of tr \<noteq> []"
    by (auto simp: requests_of_exchanges)
  show "\<forall>ps\<in>set (requests_of tr). map_of ps ''pageSize'' = Some (JNum 1000)"
  proof
    fix ps assume "ps \<in> set (requests_of tr)"
    from iterate_requests[OF assms(2) this] obtain k v where
      "k = ''countTotal'' \<or> k = ''pageToken''" "ps = AList.update k v (base_parameters (Some P) flds)"
      by blast
    then have "map_of ps ''pageSize'' = map_of (base_parameters (Some P) flds) ''pageSize''"
      by (auto simp: update_conv')
    with assms(1) show "map_of ps ''pageSize'' = Some (JNum 1000)"
      by (simp add: base_parameters_pageSize MAXIMUM_PAGE_SIZE_def)
  qed
qed

theorem page_size_clamped_witness:
  "(1000::int) < 5000 \<and>
   requests_of (snd (snd (iterate_download_studies 2 simulated demo_bar (Some 5000) None
      [ok example_page1, ok example_page2]))) =
     [[(''pageSize'', JNum 1000), (''countTotal'', JStr ''true'')],
      [(''pageSize'', JNum 1000), (''pageToken'', JStr ''tok1'')]] \<and>
   list_all (\<lambda>ps. map_of ps ''pageSize'' = Some (JNum 1000))
     (requests_of (snd (snd (iterate_download_studies 2 simulated demo_bar (Some 5000) None
      [ok example_page1, ok example_page2]))))"
proof -
  have run: "iterate_download_studies 2 simulated demo_bar (Some 5000) None
      [ok example_page1, ok example_page2] =
    (Some Exhausted, [],
     Request [(''pageSize'', JNum 1000), (''countTotal'', JStr ''true'')] (Inr example_page1)
       # map Yield (map study [1, 2, 3, 4, 5, 6, 7, 8, 9, 10])
       @ Request [(''pageSize'', JNum 1000), (''pageToken'', JStr ''tok1'')] (Inr example_page2)
       # map Yield (map study [11, 12]))"
    by code_simp
  have lt: "(1000::int) < 5000" by simp
  from page_size_clamped[OF lt run] show ?thesis
    by (simp add: run list_all_iff)
qed

text \<open>
  Claim C1, as amended. A simulated provider serves \<open>K\<close> pages, each a JSON object whose
  \<^verbatim>\<open>studies\<close> is a list, the first with a \<^verbatim>\<open>totalCount\<close>, where the first \<open>K - 1\<close> responses
  carry a token that Python takes as true (a string that is not empty) and the last one
  carries none, or one that Python takes as false. The progress bar stays out of the
  way: it can be built with the first page's \<^verbatim>\<open>totalCount\<close>, takes the page size and the
  length of each later page without raising, and its exit lets the generator run out.
  Given a bound of at least \<open>K\<close>, the generator runs out, having yielded the records of
  the pages in page order and in response order within a page, with exactly \<open>K\<close>
  requests sent; what the script holds after these pages is not asked for.
\<close>

theorem iterate_simulated_pages:
  assumes "pages \<noteq> []"
    and "\<forall>r\<in>set pages. is_page r"
    and "has_key (hd pages) ''totalCount''"
    and "\<forall>r\<in>set (butlast pages). truthy (next_token r)"
    and "\<not> truthy (next_token (last pages))"
    and "bar_silent bar (count_of (hd pages)) (session_updates page_size pages) Exhausted"
    and "length pages \<le> n"
  shows "\<exists>tr. iterate_download_studies n simulated bar page_size flds (map ok pages @ rest) =
      (Some Exhausted, rest, tr)
    \<and> yields_of tr = concat (map records pages)
    \<and> length (requests_of tr) = length pages"
proof -
  from assms(1) obtain q qs where pages: "pages = q # qs" by (cases pages) auto
  from assms(2) pages have q: "is_page q" by simp
  from assms(3) pages have c: "py_getitem q ''totalCount'' = Inr (count_of q)"
    by (simp add: has_key_count)
  from assms(6) pages obtain p0 p1 p where bar:
    "tqdm_new bar (count_of q) = Inr p0"
    "tqdm_update bar p0 (clamp_page_size page_size) = (None, p1)"
    "bar_updates bar p1 (map (\<lambda>r. int (length (records r))) qs) = (None, p)"
    "tqdm_exit bar p Exhausted = Exhausted"
    by (auto simp: session_updates_def elim: bar_silent_cases)
  let ?e = "Request (first_parameters page_size flds) (Inr q)"
  let ?tr = "[?e] @ map Yield (records q)"
  have "\<exists>new. page_loop n simulated bar (base_parameters page_size flds) q (map ok qs @ rest) p1 ?tr =
      (Some Exhausted, rest, p, ?tr @ new)
    \<and> yields_of new = concat (map records qs) \<and> length (requests_of new) = length qs"
    by (rule page_loop_simulated_pages) (use assms pages bar(3) in simp_all)
  then obtain new where new:
    "page_loop n simulated bar (base_parameters page_size flds) q (map ok qs @ rest) p1 ?tr =
      (Some Exhausted, rest, p, ?tr @ new)"
    "yields_of new = concat (map records qs)" "length (requests_of new) = length qs"
    by blast
  have "iterate_download_studies n simulated bar page_size flds (map ok pages @ rest) =
    (Some Exhausted, rest, ?tr @ new)"
    using c q bar(1,2,4) new(1)
    by (simp add: iterate_download_studies_def Let_def pages is_page_studies)
  moreover have "yields_of (?tr @ new) = concat (map records pages)"
    using new(2) pages by simp
  moreover have "length (requests_of (?tr @ new)) = length pages"
    using new(3) pages by simp
  ultimately show ?thesis by blast
qed

lemma example_pages_facts:
  "is_page example_page1" "is_page example_page2" "has_key example_page1 ''totalCount''"
  "count_of example_page1 = JNum 12"
  "next_token example_page1 = JStr ''tok1''" "next_token example_page2 = JNull"
  "records example_page1 = map study [1, 2, 3, 4, 5, 6, 7, 8, 9, 10]"
  "records example_page2 = map study [11, 12]"
  by (simp_all add: is_page_def has_key_def count_of_def next_token_def records_def
      example_page1_def example_page2_def)

lemma small_counts:
  "\<bar>12\<bar> < float_limit" "\<bar>3\<bar> < float_limit"
  "\<not> float_limit \<le> 12" "\<not> float_limit \<le> 3"
  by (simp_all add: float_limit_def)

lemma demo_bar_silent: "\<bar>c\<bar> < float_limit \<Longrightarrow> bar_silent demo_bar (JNum c) ks out"
proof -
  assume c: "\<bar>c\<bar> < float_limit"
  have "bar_updates demo_bar p ks = (None, p + sum_list ks)" for p
    by (induction ks arbitrary: p) (simp_all add: demo_bar_def add.assoc)
  with c show ?thesis
    by (simp add: bar_silent_def demo_bar_def)
qed

lemma demo_bar_silent_example: "bar_silent demo_bar (JNum 12) ks out"
  by (rule demo_bar_silent) (simp add: float_limit_def)

theorem iterate_simulated_pages_witness:
  "\<exists>tr. iterate_download_studies 2 simulated demo_bar None None
        [ok example_page1, ok example_page2] =
      (Some Exhausted, [], tr)
    \<and> yields_of tr = map study [1, 2, 3, 4, 5, 6, 7, 8, 9, 10, 11, 12]
    \<and> length (requests_of tr) = 2"
  using iterate_simulated_pages[of "[example_page1, example_page2]" demo_bar None 2 None "[]"]
  by (simp add: example_pages_facts demo_bar_silent_example numeral_2_eq_2)

text \<open>
  The claim as written asks only that the first \<open>K - 1\<close> responses carry the key. With
  two pages of one and two studies, where the first carries the empty string as token, one
  request is sent and one study yielded.
\<close>

theorem iterate_empty_token_stops:
  "has_key empty_token_page ''nextPageToken'' \<and> \<not> has_key example_page2 ''nextPageToken'' \<and>
   iterate_download_studies 2 simulated demo_bar None None [ok empty_token_page, ok example_page2] =
     (Some Exhausted, [ok example_page2],
      [Request [(''pageSize'', JNum 1000), (''countTotal'', JStr ''true'')] (Inr empty_token_page),
       Yield (study 1)]) \<and>
   records empty_token_page @ records example_page2 = [study 1, study 11, study 12]"
  by (simp add: has_key_def records_def empty_token_page_def example_page2_def
      iterate_download_studies_def base_parameters_def clamp_page_size_def MAXIMUM_PAGE_SIZE_def
      Let_def numeral_2_eq_2 demo_bar_def small_counts)

text \<open>
  Claim C9. A simulated provider serves pages that are in order, each with a true token,
  and then a JSON object that lacks an expected key: \<^verbatim>\<open>totalCount\<close> if it is the first
  response, or \<^verbatim>\<open>studies\<close>. Where pages came before it, the first of them has a
  \<^verbatim>\<open>totalCount\<close> and the progress bar stays out of the way: it can be built with that
  count, takes the page size and the length of each later page without raising, and its
  exit passes the key error on. The generator ends by raising \<^verbatim>\<open>KeyError\<close> of the lacking
  key; the studies of the pages before were yielded, the request that got the object is
  the last event, and the rest of the script is not asked for.
\<close>

theorem iterate_missing_key:
  assumes "\<forall>r\<in>set good. is_page r \<and> truthy (next_token r)"
    and "good \<noteq> [] \<longrightarrow> has_key (hd good) ''totalCount'' \<and>
      bar_silent bar (count_of (hd good)) (session_updates page_size good)
        (Raised (KeyError ''studies''))"
    and "missing_key (good = []) (JObj kvs) = Some k"
    and "length good \<le> n"
  shows "\<exists>tr ps. iterate_download_studies n simulated bar page_size flds
        (map ok good @ ok (JObj kvs) # rest) =
      (Some (Raised (KeyError k)), rest, tr @ [Request ps (Inr (JObj kvs))])
    \<and> yields_of tr = concat (map records good)
    \<and> length (requests_of tr) = length good"
proof (cases good)
  case Nil
  let ?e = "Request (first_parameters page_size flds) (Inr (JObj kvs))"
  from assms(3) Nil have "iterate_download_studies n simulated bar page_size flds
      (map ok good @ ok (JObj kvs) # rest) = (Some (Raised (KeyError k)), rest, [] @ [?e])"
    by (auto simp: iterate_download_studies_def Let_def missing_key_def has_key_def
        split: if_splits option.splits)
  moreover have "yields_of [] = concat (map records good)" "length (requests_of []) = length good"
    using Nil by simp_all
  ultimately show ?thesis by blast
next
  case (Cons q qs)
  from assms(1) Cons have q: "is_page q" "truthy (next_token q)" by simp_all
  from assms(2) Cons have c: "py_getitem q ''totalCount'' = Inr (count_of q)"
    by (simp add: has_key_count)
  from assms(3) Cons have k: "k = ''studies''" "map_of kvs ''studies'' = None"
    by (auto simp: missing_key_def has_key_def split: if_splits)
  from assms(2) Cons obtain p0 p1 p where bar:
    "tqdm_new bar (count_of q) = Inr p0"
    "tqdm_update bar p0 (clamp_page_size page_size) = (None, p1)"
    "bar_updates bar p1 (map (\<lambda>r. int (length (records r))) qs) = (None, p)"
    "tqdm_exit bar p (Raised (KeyError ''studies'')) = Raised (KeyError ''studies'')"
    by (auto simp: session_updates_def elim: bar_silent_cases)
  let ?e = "Request (first_parameters page_size flds) (Inr q)"
  let ?tr = "[?e] @ map Yield (records q)"
  have "\<exists>new ps. page_loop n simulated bar (base_parameters page_size flds) q
        (map ok qs @ ok (JObj kvs) # rest) p1 ?tr =
      (Some (Raised (KeyError ''studies'')), rest, p, ?tr @ new @ [Request ps (Inr (JObj kvs))])
    \<and> yields_of new = concat (map records qs) \<and> length (requests_of new) = length qs"
    by (rule page_loop_simulated_bad) (use assms Cons q k bar(3) in simp_all)
  then obtain new ps where new:
    "page_loop n simulated bar (base_parameters page_size flds) q
        (map ok qs @ ok (JObj kvs) # rest) p1 ?tr =
      (Some (Raised (KeyError ''studies'')), rest, p, ?tr @ new @ [Request ps (Inr (JObj kvs))])"
    "yields_of new = concat (map records qs)" "length (requests_of new) = length qs"
    by blast
  have "iterate_download_studies n simulated bar page_size flds
      (map ok good @ ok (JObj kvs) # rest) =
    (Some (Raised (KeyError k)), rest, (?tr @ new) @ [Request ps (Inr (JObj kvs))])"
    using c q bar(1,2,4) new(1) k
    by (simp add: iterate_download_studies_def Let_def Cons is_page_studies)
  moreover have "yields_of (?tr @ new) = concat (map records good)"
    using new(2) Cons by simp
  moreover have "length (requests_of (?tr @ new)) = length good"
    using new(3) Cons by simp
  ultimately show ?thesis by blast
qed

theorem iterate_missing_key_witness:
  "(\<exists>tr ps. iterate_download_studies 1 simulated demo_bar None None
        [ok example_page1, ok (JObj [(''message'', JStr ''error'')]), ok example_page2] =
      (Some (Raised (KeyError ''studies'')), [ok example_page2],
       tr @ [Request ps (Inr (JObj [(''message'', JStr ''error'')]))])
    \<and> yields_of tr = map study [1, 2, 3, 4, 5, 6, 7, 8, 9, 10]
    \<and> length (requests_of tr) = 1)"
proof -
  have "missing_key ([example_page1] = []) (JObj [(''message'', JStr ''error'')]) = Some ''studies''"
    by (simp add: missing_key_def has_key_def)
  with iterate_missing_key[of "[example_page1]" demo_bar None "[(''message'', JStr ''error'')]"
      "''studies''" 1 None "[ok example_page2]"]
  show ?thesis
    by (simp add: example_pages_facts demo_bar_silent_example)
qed

text \<open>
  A first response without \<^verbatim>\<open>totalCount\<close>: the key error, after one request, before any
  progress bar is built.
\<close>

lemma first_response_without_count:
  "iterate_download_studies 0 simulated bar None None [ok example_page2] =
     (Some (Raised (KeyError ''totalCount'')), [],
      [Request [(''pageSize'', JNum 1000), (''countTotal'', JStr ''true'')] (Inr example_page2)])"
  by (simp add: iterate_download_studies_def base_parameters_def MAXIMUM_PAGE_SIZE_def Let_def
      example_page2_def)

text \<open>
  A progress bar that cannot be built with the total ends the session where it is built:
  the first page has been yielded, no second request is sent.
\<close>

lemma string_count_stops_session:
  "iterate_download_studies 2 simulated demo_bar None None [ok string_count_page, ok example_page2] =
     (Some (Raised TypeError), [ok example_page2],
      [Request [(''pageSize'', JNum 1000), (''countTotal'', JStr ''true'')] (Inr string_count_page),
       Yield (study 1)])"
  by (simp add: iterate_download_studies_def base_parameters_def MAXIMUM_PAGE_SIZE_def Let_def
      string_count_page_def demo_bar_def)




text \<open>
  Claim C5, at a field selection other than the default one. For the selection
  \<^verbatim>\<open>["NCTId", "Phase"]\<close> both requests of the session carry \<^verbatim>\<open>fields\<close> equal to
  \<^verbatim>\<open>NCTId,BriefTitle\<close>, the join of \<^verbatim>\<open>DEFAULT_FIELDS\<close>, and not \<^verbatim>\<open>NCTId,Phase\<close>, the join of
  the selection.
\<close>

theorem fields_selection_not_sent:
  "requests_of (snd (snd (iterate_download_studies 2 simulated demo_bar None
      (Some [''NCTId'', ''Phase'']) [ok example_page1, ok example_page2]))) =
     [[(''pageSize'', JNum 1000), (''fields'', JStr ''NCTId,BriefTitle''), (''countTotal'', JStr ''true'')],
      [(''pageSize'', JNum 1000), (''fields'', JStr ''NCTId,BriefTitle''), (''pageToken'', JStr ''tok1'')]]
   \<and> join '','' [''NCTId'', ''Phase''] = ''NCTId,Phase''"
  by code_simp

text \<open>
  What the code does for every selection: no \<^verbatim>\<open>fields\<close> parameter for \<^verbatim>\<open>None\<close>, the join of
  the default fields for any list.
\<close>

lemma fields_parameter_sent:
  assumes "iterate_download_studies n get bar page_size flds s = (out, s', tr)"
    and "ps \<in> set (requests_of tr)"
  shows "map_of ps ''fields'' =
    (case flds of None \<Rightarrow> None | Some F \<Rightarrow> Some (JStr ''NCTId,BriefTitle''))"
proof -
  from iterate_requests[OF assms] obtain k v where
    "k = ''countTotal'' \<or> k = ''pageToken''" "ps = AList.update k v (base_parameters page_size flds)"
    by blast
  then have "map_of ps ''fields'' = map_of (base_parameters page_size flds) ''fields''"
    by (auto simp: update_conv')
  then show ?thesis
    by (simp add: base_parameters_fields DEFAULT_FIELDS_def split: option.splits)
qed

section \<open>Properties of the cache manager\<close>

lemma refresh_raised:
  assumes "iterate_download_studies n get bar (Some MAXIMUM_PAGE_SIZE) None (server w) =
      (Some (Raised e), s', tr)"
  shows "refresh n cd get bar w = Some (Inl e, w\<lparr>server := s', sent := sent w @ requests_of tr\<rparr>)"
  using assms by (simp add: refresh_def)

lemma get_studies_refresh:
  "force \<or> files w PATH = None \<Longrightarrow> get_studies n cd get bar force w = refresh n cd get bar w"
  by (auto simp: get_studies_def split: option.splits)

text \<open>
  Claim C3, as amended. In a refresh (the flag is set, or there is no cache) whose
  download raises an error, \<^verbatim>\<open>get_studies\<close> raises that error, and the two files are as
  before: nothing was opened for writing. The download raises in particular when a fetch
  raises, \<^verbatim>\<open>requests.get\<close> itself or the decoding of a body that is not JSON, and the exit
  of the progress bar passes that error on.
\<close>

theorem failed_refresh_writes_nothing:
  assumes "force \<or> files w PATH = None"
    and "iterate_download_studies n get bar (Some MAXIMUM_PAGE_SIZE) None (server w) = (out, s', tr)"
    and "out = Some (Raised e) \<or>
      ((ps, Inl e) \<in> set (exchanges_of tr) \<and> (\<forall>p. tqdm_exit bar p (Raised e) = Raised e))"
  shows "\<exists>w'. get_studies n cd get bar force w = Some (Inl e, w')
    \<and> files w' = files w \<and> io w' = io w"
proof -
  from assms(3) have "out = Some (Raised e)"
  proof
    assume a: "(ps, Inl e) \<in> set (exchanges_of tr) \<and> (\<forall>p. tqdm_exit bar p (Raised e) = Raised e)"
    with iterate_failed_fetch[OF assms(2), of ps e] show ?thesis by auto
  qed
  with assms(2) have "refresh n cd get bar w =
      Some (Inl e, w\<lparr>server := s', sent := sent w @ requests_of tr\<rparr>)"
    by (simp add: refresh_raised)
  with assms(1) show ?thesis
    by (simp add: get_studies_refresh)
qed

lemma failing_run:
  "iterate_download_studies 2 simulated demo_bar (Some MAXIMUM_PAGE_SIZE) None
      [ok example_page1, Inr (Response 500 (Inl JSONDecodeError))] =
    (Some (Raised JSONDecodeError), [],
     Request [(''pageSize'', JNum 1000), (''countTotal'', JStr ''true'')] (Inr example_page1)
       # map Yield (map study [1, 2, 3, 4, 5, 6, 7, 8, 9, 10])
       @ [Request [(''pageSize'', JNum 1000), (''pageToken'', JStr ''tok1'')] (Inl JSONDecodeError)])"
  by code_simp

theorem failed_refresh_writes_nothing_witness:
  "\<exists>w'. get_studies 2 demo_codec simulated demo_bar True
       (demo_world [ok example_page1, Inr (Response 500 (Inl JSONDecodeError))] (Some old_cache)) =
      Some (Inl JSONDecodeError, w')
    \<and> files w' PATH = Some old_cache \<and> files w' PATH_SAMPLE = None \<and> io w' = []"
proof -
  let ?w = "demo_world [ok example_page1, Inr (Response 500 (Inl JSONDecodeError))] (Some old_cache)"
  have run: "iterate_download_studies 2 simulated demo_bar (Some MAXIMUM_PAGE_SIZE) None (server ?w) =
    (Some (Raised JSONDecodeError), [],
     Request [(''pageSize'', JNum 1000), (''countTotal'', JStr ''true'')] (Inr example_page1)
       # map Yield (map study [1, 2, 3, 4, 5, 6, 7, 8, 9, 10])
       @ [Request [(''pageSize'', JNum 1000), (''pageToken'', JStr ''tok1'')] (Inl JSONDecodeError)])"
    using failing_run by (simp add: demo_world_def)
  have failed: "Some (Raised JSONDecodeError) = Some (Raised JSONDecodeError) \<or>
      (([(''pageSize'', JNum 1000), (''pageToken'', JStr ''tok1'')], Inl JSONDecodeError)
        \<in> set (exchanges_of
          (Request [(''pageSize'', JNum 1000), (''countTotal'', JStr ''true'')] (Inr example_page1)
           # map Yield (map study [1, 2, 3, 4, 5, 6, 7, 8, 9, 10])
           @ [Request [(''pageSize'', JNum 1000), (''pageToken'', JStr ''tok1'')] (Inl JSONDecodeError)]))
       \<and> (\<forall>p. tqdm_exit demo_bar p (Raised JSONDecodeError) = Raised JSONDecodeError))"
    by simp
  have forced: "True \<or> files ?w PATH = None" by simp
  from failed_refresh_writes_nothing[OF forced run failed, of demo_codec]
  obtain w' where "get_studies 2 demo_codec simulated demo_bar True ?w = Some (Inl JSONDecodeError, w')"
    "files w' = files ?w" "io w' = io ?w"
    by auto
  then show ?thesis by (simp add: demo_world_def)
qed

lemma example_refresh_run:
  "iterate_download_studies 2 simulated demo_bar (Some MAXIMUM_PAGE_SIZE) None
      [ok example_page1, replied code example_page2] =
    (Some Exhausted, [],
     Request [(''pageSize'', JNum 1000), (''countTotal'', JStr ''true'')] (Inr example_page1)
       # map Yield (map study [1, 2, 3, 4, 5, 6, 7, 8, 9, 10])
       @ Request [(''pageSize'', JNum 1000), (''pageToken'', JStr ''tok1'')] (Inr example_page2)
       # map Yield (map study [11, 12]))"
  by (simp add: iterate_download_studies_def base_parameters_def clamp_page_size_def
      MAXIMUM_PAGE_SIZE_def Let_def numeral_2_eq_2 demo_bar_def small_counts example_page1_def
      example_page2_def)

lemma example_refresh:
  "\<exists>w'. refresh 2 demo_codec simulated demo_bar
        (demo_world [ok example_page1, replied code example_page2] cache) =
      Some (Inr (JArr (map study [1, 2, 3, 4, 5, 6, 7, 8, 9, 10, 11, 12])), w')
    \<and> files w' PATH = Some (Gz (JArr (map study [1, 2, 3, 4, 5, 6, 7, 8, 9, 10, 11, 12])))
    \<and> files w' PATH_SAMPLE = Some (Text (JArr (map study [1, 2, 3, 4, 5])))
    \<and> sent w' = [[(''pageSize'', JNum 1000), (''countTotal'', JStr ''true'')],
                 [(''pageSize'', JNum 1000), (''pageToken'', JStr ''tok1'')]]
    \<and> io w' = [Write PATH_SAMPLE (Text (JArr (map study [1, 2, 3, 4, 5]))),
               Write PATH (Gz (JArr (map study [1, 2, 3, 4, 5, 6, 7, 8, 9, 10, 11, 12])))]"
  by (simp add: refresh_def demo_world_def example_refresh_run Let_def N_SAMPLE_ROWS_def
      demo_codec_def)

text \<open>
  The claim as written comes with the scenario of an HTTP 500 on page 2. The status is
  not looked at: when the body of that response is a JSON page, the download ends as
  with a status of 200, and the old cache and the sample are replaced.
\<close>

theorem error_status_page_is_cached:
  "files (demo_world [ok example_page1, replied 500 example_page2] (Some old_cache)) PATH =
      Some old_cache
   \<and> result_of (get_studies 2 demo_codec simulated demo_bar True
        (demo_world [ok example_page1, replied 500 example_page2] (Some old_cache))) =
      Some (Inr (JArr (map study [1, 2, 3, 4, 5, 6, 7, 8, 9, 10, 11, 12])))
   \<and> file_after (get_studies 2 demo_codec simulated demo_bar True
        (demo_world [ok example_page1, replied 500 example_page2] (Some old_cache))) PATH =
      Some (Gz (JArr (map study [1, 2, 3, 4, 5, 6, 7, 8, 9, 10, 11, 12])))
   \<and> file_after (get_studies 2 demo_codec simulated demo_bar True
        (demo_world [ok example_page1, replied 500 example_page2] (Some old_cache))) PATH_SAMPLE =
      Some (Text (JArr (map study [1, 2, 3, 4, 5])))"
proof -
  from example_refresh[of 500 "Some old_cache"] show ?thesis
    by (auto simp: get_studies_refresh result_of_def file_after_def demo_world_def)
qed

text \<open>
  Claim C2. With a cache and without the flag, \<^verbatim>\<open>get_studies\<close> gives what decompressing
  and parsing the cache gives, sends no request and writes no file: it opens the cache
  for reading. A second call right after gives the same, and again only reads.
\<close>

theorem cached_studies_returned:
  assumes "files w PATH = Some c"
  shows "\<exists>w1 w2. get_studies n cd get bar False w = Some (gzip_json_load cd c, w1)
    \<and> server w1 = server w \<and> sent w1 = sent w \<and> files w1 = files w \<and> io w1 = io w @ [Read PATH]
    \<and> get_studies n cd get bar False w1 = Some (gzip_json_load cd c, w2)
    \<and> server w2 = server w \<and> sent w2 = sent w \<and> files w2 = files w
    \<and> io w2 = io w @ [Read PATH, Read PATH]"
  using assms by (simp add: get_studies_def)

theorem cached_studies_returned_witness:
  "\<exists>w1 w2. get_studies 0 demo_codec simulated demo_bar False (demo_world [] (Some old_cache)) =
      Some (Inr (JArr [study 0]), w1)
    \<and> sent w1 = [] \<and> files w1 PATH = Some old_cache \<and> io w1 = [Read PATH]
    \<and> get_studies 0 demo_codec simulated demo_bar False w1 = Some (Inr (JArr [study 0]), w2)
    \<and> sent w2 = [] \<and> files w2 PATH = Some old_cache \<and> io w2 = [Read PATH, Read PATH]"
proof -
  have c: "files (demo_world [] (Some old_cache)) PATH = Some old_cache"
    by (simp add: demo_world_def)
  from cached_studies_returned[OF c, of 0 demo_codec simulated demo_bar] show ?thesis
    by (auto simp: demo_world_def demo_codec_def old_cache_def)
qed

text \<open>
  Claim C6. A refresh that returns gives a list \<open>L\<close>; the cache then holds \<open>L\<close> and the
  sample holds the first \<open>min 5 |L|\<close> entries of \<open>L\<close>, a prefix of \<open>L\<close>, which is all of \<open>L\<close>
  when \<open>L\<close> has fewer than five entries.
\<close>

theorem sample_is_prefix:
  assumes "force \<or> files w PATH = None"
    and "get_studies n cd get bar force w = Some (Inr v, w')"
  shows "\<exists>L. v = JArr L
    \<and> files w' PATH = Some (gzip_json_dump cd (JArr L))
    \<and> files w' PATH_SAMPLE = Some (json_dump_indent cd (JArr (take (min 5 (length L)) L)))
    \<and> prefix (take (min 5 (length L)) L) L
    \<and> (length L < 5 \<longrightarrow> take (min 5 (length L)) L = L)"
proof -
  from assms have r: "refresh n cd get bar w = Some (Inr v, w')"
    by (simp add: get_studies_refresh)
  obtain out s' tr where it:
    "iterate_download_studies n get bar (Some MAXIMUM_PAGE_SIZE) None (server w) = (out, s', tr)"
    by (cases "iterate_download_studies n get bar (Some MAXIMUM_PAGE_SIZE) None (server w)")
  from r it have out: "out = Some Exhausted"
    by (auto simp: refresh_def split: option.splits outcome.splits)
  let ?L = "yields_of tr"
  have tk: "take (min 5 (length ?L)) ?L = take 5 ?L"
    by (simp add: min_def)
  from r it out have "v = JArr ?L"
    "files w' PATH = Some (gzip_json_dump cd (JArr ?L))"
    "files w' PATH_SAMPLE = Some (json_dump_indent cd (JArr (take (min 5 (length ?L)) ?L)))"
    by (auto simp: refresh_def Let_def N_SAMPLE_ROWS_def tk)
  moreover have "prefix (take (min 5 (length ?L)) ?L) ?L"
    by (rule take_is_prefix)
  moreover have "length ?L < 5 \<longrightarrow> take (min 5 (length ?L)) ?L = ?L"
    by simp
  ultimately show ?thesis by blast
qed

theorem sample_is_prefix_witness:
  "\<exists>w'. get_studies 2 demo_codec simulated demo_bar False
        (demo_world [ok example_page1, ok example_page2] None) =
      Some (Inr (JArr (map study [1, 2, 3, 4, 5, 6, 7, 8, 9, 10, 11, 12])), w')
    \<and> files w' PATH = Some (Gz (JArr (map study [1, 2, 3, 4, 5, 6, 7, 8, 9, 10, 11, 12])))
    \<and> files w' PATH_SAMPLE = Some (Text (JArr (map study [1, 2, 3, 4, 5])))"
proof -
  let ?w = "demo_world [ok example_page1, ok example_page2] None"
  have absent: "False \<or> files ?w PATH = None"
    by (simp add: demo_world_def)
  from example_refresh[of 200 None] obtain w' where
    run: "get_studies 2 demo_codec simulated demo_bar False ?w =
      Some (Inr (JArr (map study [1, 2, 3, 4, 5, 6, 7, 8, 9, 10, 11, 12])), w')"
    by (auto simp: get_studies_refresh[OF absent])
  from sample_is_prefix[OF absent run] have
    "files w' PATH = Some (gzip_json_dump demo_codec (JArr (map study [1, 2, 3, 4, 5, 6, 7, 8, 9, 10, 11, 12])))"
    "files w' PATH_SAMPLE = Some (json_dump_indent demo_codec (JArr (map study [1, 2, 3, 4, 5])))"
    by simp_all
  with run show ?thesis by (simp add: demo_codec_def)
qed

section \<open>Properties of the upload\<close>

text \<open>
  Claim C8, as amended. \<^verbatim>\<open>upload_zenodo\<close> never returns normally. Given a client, or able
  to build one, it calls \<^verbatim>\<open>get_studies(force=True)\<close>, which is a refresh whatever the
  cache; if the refresh returns, \<^verbatim>\<open>NotImplementedError\<close> is raised in the world the refresh
  left, and if the refresh raises, that error is the one raised.
\<close>

theorem upload_zenodo_outcomes:
  assumes "client = None \<longrightarrow> new_client = Inr c"
  shows "(\<forall>u w'. upload_zenodo n cd get bar new_client client w \<noteq> Some (Inr u, w'))
    \<and> get_studies n cd get bar True w = refresh n cd get bar w
    \<and> (\<forall>v w'. refresh n cd get bar w = Some (Inr v, w') \<longrightarrow>
          upload_zenodo n cd get bar new_client client w = Some (Inl NotImplementedError, w'))
    \<and> (\<forall>e w'. refresh n cd get bar w = Some (Inl e, w') \<longrightarrow>
          upload_zenodo n cd get bar new_client client w = Some (Inl e, w'))"
proof -
  have g: "get_studies n cd get bar True w = refresh n cd get bar w"
    by (simp add: get_studies_refresh)
  have ready: "(case client of None \<Rightarrow> new_client | Some c' \<Rightarrow> Inr c') =
      Inr (case client of None \<Rightarrow> c | Some c' \<Rightarrow> c')"
    using assms by (cases client) simp_all
  have "upload_zenodo n cd get bar new_client client w \<noteq> Some (Inr u, w')" for u w'
    by (auto simp: upload_zenodo_def split: sum.splits option.splits prod.splits)
  moreover have "upload_zenodo n cd get bar new_client client w = Some (Inl NotImplementedError, w')"
    if "refresh n cd get bar w = Some (Inr v, w')" for v w'
    using that by (simp add: upload_zenodo_def ready g)
  moreover have "upload_zenodo n cd get bar new_client client w = Some (Inl e, w')"
    if "refresh n cd get bar w = Some (Inl e, w')" for e w'
    using that by (simp add: upload_zenodo_def ready g)
  ultimately show ?thesis using g by blast
qed

theorem upload_zenodo_outcomes_witness:
  "\<exists>w'. upload_zenodo 2 demo_codec simulated demo_bar (Inl (ImportError ''zenodo_client'')) (Some ())
        (demo_world [ok example_page1, ok example_page2] (Some old_cache)) =
      Some (Inl NotImplementedError, w')
    \<and> files w' PATH = Some (Gz (JArr (map study [1, 2, 3, 4, 5, 6, 7, 8, 9, 10, 11, 12])))
    \<and> length (sent w') = 2"
proof -
  have "Some () = None \<longrightarrow> Inl (ImportError ''zenodo_client'') = Inr ()"
    by simp
  from upload_zenodo_outcomes[OF this, of 2 demo_codec simulated demo_bar
      "demo_world [ok example_page1, ok example_page2] (Some old_cache)"]
    example_refresh[of 200 "Some old_cache"]
  show ?thesis
    by auto
qed

text \<open>
  The claim as written has every call refresh first and raise \<^verbatim>\<open>NotImplementedError\<close>.
  A call whose first request times out raises the timeout; a call without a client, where
  \<^verbatim>\<open>zenodo_client\<close> cannot be imported, raises the import error and sends no request.
\<close>

theorem upload_zenodo_other_errors:
  "upload_zenodo 2 demo_codec simulated demo_bar (Inr ()) (Some ())
       (demo_world [Inl Timeout] (Some old_cache)) =
     Some (Inl Timeout,
       (demo_world [] (Some old_cache))
         \<lparr>sent := [[(''pageSize'', JNum 1000), (''countTotal'', JStr ''true'')]]\<rparr>)
   \<and> upload_zenodo 2 demo_codec simulated demo_bar (Inl (ImportError ''zenodo_client'')) None
       (demo_world [ok example_page1, ok example_page2] (Some old_cache)) =
     Some (Inl (ImportError ''zenodo_client''),
       demo_world [ok example_page1, ok example_page2] (Some old_cache))"
  by (simp add: upload_zenodo_def get_studies_def refresh_def iterate_download_studies_def
      base_parameters_def MAXIMUM_PAGE_SIZE_def Let_def demo_world_def)

section \<open>Properties of the package module\<close>

text \<open>
  Claim C10. Running \<^verbatim>\<open>__init__.py\<close> raises \<^verbatim>\<open>ImportError\<close> at the name \<^verbatim>\<open>hello\<close>: the
  \<^verbatim>\<open>api\<close> module binds neither \<^verbatim>\<open>hello\<close> nor \<^verbatim>\<open>square\<close>, and neither is among its exports,
  which are all bound in it.
\<close>

theorem package_import_fails:
  "package_init = Inl (ImportError ''hello'')
   \<and> ''hello'' \<notin> set api_namespace \<and> ''square'' \<notin> set api_namespace
   \<and> ''hello'' \<notin> set api_all \<and> ''square'' \<notin> set api_all
   \<and> import_from api_namespace api_all = Inr api_all
   \<and> import_from api_namespace init_all = Inl (ImportError ''hello'')"
  by (simp add: package_init_def api_namespace_def api_all_def init_all_def)

end
